theory Spec2Isabelle
  imports Complex_Main "HOL-Library.Word" "HOL-Library.Sublist" "HOL-Library.AList"
begin

section \<open>Python values used by the store\<close>

text \<open>
  Strings are lists of 8-bit characters: the model covers Python strings whose code
  points are below 256. Exceptions are values of \<open>py_error\<close>; a call that can raise
  returns \<open>py_error + 'a\<close> with \<open>Inl\<close> for the exception.
\<close>

datatype py_error =
    ValueError
  | IndexError
  | JSONDecodeError
  | IntegrityError
  | ProgrammingError
  | DataError

text \<open>\<^verbatim>\<open>s.replace(old, new)\<close>: every non-overlapping occurrence, left to right.\<close>

fun str_replace :: "string \<Rightarrow> string \<Rightarrow> string \<Rightarrow> string" where
  "str_replace old new [] = (if old = [] then new else [])"
| "str_replace old new (c # cs) =
     (if old = [] then new @ c # str_replace old new cs
      else if prefix old (c # cs)
        then new @ str_replace old new (drop (length old) (c # cs))
      else c # str_replace old new cs)"

text \<open>\<^verbatim>\<open>s.strip(chars)\<close>: leading and trailing characters of \<open>chars\<close> are dropped.\<close>

definition str_strip :: "string \<Rightarrow> string \<Rightarrow> string" where
  "str_strip chars s =
     rev (dropWhile (\<lambda>c. c \<in> set chars) (rev (dropWhile (\<lambda>c. c \<in> set chars) s)))"


subsection \<open>\<^verbatim>\<open>int(s, 16)\<close>\<close>

text \<open>
  White space that \<^verbatim>\<open>int\<close> skips around a literal: the ASCII white space
  \<^verbatim>\<open>\t \n \v \f \r\<close> and the blank, and (below 256) the code points 133 and 160.
\<close>

definition py_isspace :: "char \<Rightarrow> bool" where
  "py_isspace c = ((of_char c :: nat) \<in> {9, 10, 11, 12, 13, 32, 133, 160})"

text \<open>The value of a digit character in bases up to 36; 37 for any other character.\<close>

definition digit_value :: "char \<Rightarrow> nat" where
  "digit_value c =
     (let n = (of_char c :: nat) in
      if 48 \<le> n \<and> n \<le> 57 then n - 48
      else if 97 \<le> n \<and> n \<le> 122 then n - 87
      else if 65 \<le> n \<and> n \<le> 90 then n - 55
      else 37)"

text \<open>
  The digit scan of a base-16 literal: digits and single underscores between them.
  The flag says that the previous character was an underscore. The result is the value
  read so far and the unread rest; \<open>None\<close> is a syntax error (two underscores in a row,
  or an underscore last).
\<close>

fun scan_hex :: "bool \<Rightarrow> nat \<Rightarrow> string \<Rightarrow> (nat \<times> string) option" where
  "scan_hex prev acc [] = (if prev then None else Some (acc, []))"
| "scan_hex prev acc (c # cs) =
     (if c = CHR ''_'' then (if prev then None else scan_hex True acc cs)
      else if digit_value c < 16 then scan_hex False (16 * acc + digit_value c) cs
      else if prev then None else Some (acc, c # cs))"

text \<open>An optional sign, then an optional \<^verbatim>\<open>0x\<close> or \<^verbatim>\<open>0X\<close> with one underscore allowed after it.\<close>

definition read_sign :: "string \<Rightarrow> int \<times> string" where
  "read_sign s =
     (case s of
        [] \<Rightarrow> (1, s)
      | c # r \<Rightarrow> if c = CHR ''+'' then (1, r)
                 else if c = CHR ''-'' then (- 1, r)
                 else (1, s))"

definition skip_0x :: "string \<Rightarrow> string" where
  "skip_0x s =
     (case s of
        c0 # cx # r \<Rightarrow>
          if c0 = CHR ''0'' \<and> (cx = CHR ''x'' \<or> cx = CHR ''X'')
          then (case r of [] \<Rightarrow> r | u # r' \<Rightarrow> if u = CHR ''_'' then r' else r)
          else s
      | _ \<Rightarrow> s)"

text \<open>
  The literal must not start with an underscore, must hold a digit, and only white
  space may follow it.
\<close>

definition int_base16 :: "string \<Rightarrow> py_error + int" where
  "int_base16 s =
     (let (sign, s2) = read_sign (dropWhile py_isspace s);
          s3 = skip_0x s2
      in case s3 of
           [] \<Rightarrow> Inl ValueError
         | c # _ \<Rightarrow>
             if c = CHR ''_'' then Inl ValueError
             else (case scan_hex False 0 s3 of
                     None \<Rightarrow> Inl ValueError
                   | Some (v, rest) \<Rightarrow>
                       if length rest = length s3 then Inl ValueError
                       else if dropWhile py_isspace rest \<noteq> [] then Inl ValueError
                       else Inr (sign * int v)))"

subsection \<open>\<^verbatim>\<open>'%032x' % n\<close>\<close>

definition hex_char :: "nat \<Rightarrow> char" where
  "hex_char d = ''0123456789abcdef'' ! d"

fun to_hex :: "nat \<Rightarrow> string" where
  "to_hex n = (if n < 16 then [hex_char n] else to_hex (n div 16) @ [hex_char (n mod 16)])"

declare to_hex.simps [simp del]

definition format_032x :: "nat \<Rightarrow> string" where
  "format_032x n = (let h = to_hex n in replicate (32 - length h) CHR ''0'' @ h)"

section \<open>The \<^verbatim>\<open>uuid\<close> module\<close>

text \<open>
  A UUID object holds a 128-bit integer. \<^verbatim>\<open>uuid.UUID(hex)\<close> removes \<^verbatim>\<open>urn:\<close> and
  \<^verbatim>\<open>uuid:\<close>, strips braces, removes hyphens, wants 32 characters left and reads them
  with \<^verbatim>\<open>int(hex, 16)\<close>; every failure is a ValueError.
\<close>

type_synonym uuid = "128 word"

definition uuid_UUID :: "string \<Rightarrow> py_error + uuid" where
  "uuid_UUID hex =
     (let hex1 = str_replace ''uuid:'' '''' (str_replace ''urn:'' '''' hex);
          hex2 = str_replace ''-'' '''' (str_strip ''{}'' hex1)
      in if length hex2 \<noteq> 32 then Inl ValueError
         else (case int_base16 hex2 of
                 Inl e \<Rightarrow> Inl e
               | Inr i \<Rightarrow>
                   if \<not> (0 \<le> i \<and> i < 2 ^ 128) then Inl ValueError
                   else Inr (word_of_int i)))"

text \<open>\<^verbatim>\<open>str(u)\<close>: the 32 lower-case hex digits in groups of 8, 4, 4, 4 and 12.\<close>

definition uuid_fmt :: "string \<Rightarrow> string" where
  "uuid_fmt hex =
     take 8 hex @ ''-'' @ take 4 (drop 8 hex) @ ''-'' @ take 4 (drop 12 hex) @ ''-''
       @ take 4 (drop 16 hex) @ ''-'' @ drop 20 hex"

definition uuid_str :: "uuid \<Rightarrow> string" where
  "uuid_str u = uuid_fmt (format_032x (unat u))"

text \<open>\<^verbatim>\<open>uuid.NAMESPACE_DNS\<close> is 6ba7b810-9dad-11d1-80b4-00c04fd430c8.\<close>

definition NAMESPACE_DNS :: uuid where
  "NAMESPACE_DNS = 0x6ba7b8109dad11d180b400c04fd430c8"

text \<open>The lower-case hex digits, the value of a digit string, and the form \<^verbatim>\<open>str(u)\<close> has.\<close>

definition lower_hex :: "char \<Rightarrow> bool" where
  "lower_hex c = (c \<in> set ''0123456789abcdef'')"

definition hex_value :: "string \<Rightarrow> nat" where
  "hex_value ds = foldl (\<lambda>a c. 16 * a + digit_value c) 0 ds"

definition uuid_hex_part :: "string \<Rightarrow> string" where
  "uuid_hex_part s =
     take 8 s @ take 4 (drop 9 s) @ take 4 (drop 14 s) @ take 4 (drop 19 s) @ drop 24 s"

definition canonical_uuid :: "string \<Rightarrow> bool" where
  "canonical_uuid s =
     (length s = 36 \<and> list_all lower_hex (uuid_hex_part s) \<and> s = uuid_fmt (uuid_hex_part s))"

section \<open>Documents (\<^verbatim>\<open>mytypes.py\<close>)\<close>

text \<open>
  \<^verbatim>\<open>DocMetaData\<close> has seven declared fields and, by \<^verbatim>\<open>Extra.allow\<close>, an open bag of
  further keys; \<open>'x\<close> is the type of the bag's values. The field \<^verbatim>\<open>id\<close> is \<open>meta_id\<close>
  here.
\<close>

record 'x DocMetaData =
  source :: string
  source_content :: string
  title :: string
  published_date :: string
  is_chunk :: bool
  meta_id :: string
  window_ids :: "string list"
  extra :: "(string \<times> 'x) list"

record 'x Document =
  content :: string
  metadata :: "'x DocMetaData"

text \<open>The validator \<^verbatim>\<open>ensure_not_empty\<close> runs on five fields when a \<^verbatim>\<open>DocMetaData\<close> is built.\<close>

definition ensure_not_empty :: "string \<Rightarrow> py_error + string" where
  "ensure_not_empty v = (if v = [] then Inl ValueError else Inr v)"

definition DocMetaData_init :: "'x DocMetaData \<Rightarrow> py_error + 'x DocMetaData" where
  "DocMetaData_init m =
     (case ensure_not_empty (source m) of Inl e \<Rightarrow> Inl e | Inr _ \<Rightarrow>
      case ensure_not_empty (source_content m) of Inl e \<Rightarrow> Inl e | Inr _ \<Rightarrow>
      case ensure_not_empty (meta_id m) of Inl e \<Rightarrow> Inl e | Inr _ \<Rightarrow>
      case ensure_not_empty (title m) of Inl e \<Rightarrow> Inl e | Inr _ \<Rightarrow>
      case ensure_not_empty (published_date m) of Inl e \<Rightarrow> Inl e | Inr _ \<Rightarrow> Inr m)"

text \<open>
  The caller's documents are objects that \<^verbatim>\<open>add_documents\<close> changes in place: a heap
  maps a reference to the object it names, and a sequence of documents is a list of
  references (the same object may stand in it twice).
\<close>

type_synonym 'x heap = "nat \<Rightarrow> 'x Document"

section \<open>The backing engine\<close>

text \<open>
  A row of a collection's table has the four columns of \<^verbatim>\<open>_setup_table\<close>; the column
  \<^verbatim>\<open>id\<close> is \<open>row_id\<close>, the primary key. The JSON column \<^verbatim>\<open>cmetadata\<close> holds the
  dictionary of a document's metadata, kept here as the metadata record it is read back
  into; \<open>'e\<close> is the type of an embedding vector. The database is its catalogue of
  tables, in the order \<^verbatim>\<open>get_table_names\<close> lists them, each with its rows in storage
  order, and the set of index names. Collection names are taken to be plain SQL
  identifiers, so that the statements the store writes name the objects meant.
\<close>

record ('e, 'x) row =
  row_id :: string
  embedding :: 'e
  document :: string
  cmetadata :: "'x DocMetaData"

record ('e, 'x) PostgresDB =
  tables :: "(string \<times> ('e, 'x) row list) list"
  indexes :: "string set"
  collection_name :: string
  replace_collection :: bool

text \<open>
  A multi-row \<^verbatim>\<open>INSERT\<close> into a table whose \<^verbatim>\<open>id\<close> is the primary key: a row whose id
  is already there (stored, or earlier in the same statement) violates the key, and the
  statement then inserts nothing.
\<close>

fun insert_many :: "('e, 'x) row list \<Rightarrow> ('e, 'x) row list \<Rightarrow> py_error + ('e, 'x) row list" where
  "insert_many rows [] = Inr rows"
| "insert_many rows (r # rs) =
     (if row_id r \<in> row_id ` set rows then Inl IntegrityError
      else insert_many (rows @ [r]) rs)"

text \<open>A statement on the bound table fails when the table does not exist.\<close>

definition bound_rows :: "('e, 'x) PostgresDB \<Rightarrow> py_error + ('e, 'x) row list" where
  "bound_rows st =
     (case map_of (tables st) (collection_name st) of
        None \<Rightarrow> Inl ProgrammingError
      | Some rows \<Rightarrow> Inr rows)"

definition execute_insert ::
  "('e, 'x) PostgresDB \<Rightarrow> ('e, 'x) row list \<Rightarrow> py_error + ('e, 'x) PostgresDB" where
  "execute_insert st new_records =
     (case bound_rows st of
        Inl e \<Rightarrow> Inl e
      | Inr rows \<Rightarrow>
          (case insert_many rows new_records of
             Inl e \<Rightarrow> Inl e
           | Inr rows' \<Rightarrow> Inr (st\<lparr>tables := AList.update (collection_name st) rows' (tables st)\<rparr>)))"

text \<open>A list comprehension whose element expression can raise stops at the first exception.\<close>

fun map_result :: "('a \<Rightarrow> py_error + 'b) \<Rightarrow> 'a list \<Rightarrow> py_error + 'b list" where
  "map_result f [] = Inr []"
| "map_result f (x # xs) =
     (case f x of
        Inl e \<Rightarrow> Inl e
      | Inr y \<Rightarrow> (case map_result f xs of Inl e \<Rightarrow> Inl e | Inr ys \<Rightarrow> Inr (y # ys)))"

section \<open>The store (\<^verbatim>\<open>vector_store/postgres.py\<close>)\<close>

subsection \<open>Collections\<close>


definition index_name :: "string \<Rightarrow> string" where
  "index_name collection = ''hnsw_index_'' @ collection @ ''_embedding''"








subsection \<open>Identities\<close>

text \<open>
  \<^verbatim>\<open>_id_to_uuid(id, obj)\<close>. The collaborators it calls are parameters: \<open>repr\<close> is
  \<^verbatim>\<open>repr(obj)\<close>, \<open>sha256_hexdigest\<close> is \<^verbatim>\<open>hashlib.sha256(s.encode()).hexdigest()\<close> and
  \<open>uuid5\<close> is \<^verbatim>\<open>uuid.uuid5\<close>. Only a ValueError of \<^verbatim>\<open>uuid.UUID\<close> is caught.
\<close>

definition id_to_uuid ::
  "('o \<Rightarrow> string) \<Rightarrow> (string \<Rightarrow> string) \<Rightarrow> (uuid \<Rightarrow> string \<Rightarrow> uuid) \<Rightarrow>
     string \<Rightarrow> 'o \<Rightarrow> py_error + string" where
  "id_to_uuid repr sha256_hexdigest uuid5 ident obj =
     (case uuid_UUID ident of
        Inr u \<Rightarrow> Inr (uuid_str u)
      | Inl e \<Rightarrow>
          if e = ValueError then
            (let obj_repr = repr obj;
                 obj_hash = sha256_hexdigest obj_repr;
                 combined = ident @ ''-'' @ obj_hash
             in Inr (uuid_str (uuid5 NAMESPACE_DNS combined)))
          else Inl e)"

subsection \<open>Writing documents\<close>

text \<open>
  The first loop of \<^verbatim>\<open>add_documents\<close> stores the derived id in each document object; what
  it has written stays written if a later step raises.
\<close>

fun assign_ids ::
  "('x DocMetaData \<Rightarrow> string) \<Rightarrow> (string \<Rightarrow> string) \<Rightarrow> (uuid \<Rightarrow> string \<Rightarrow> uuid) \<Rightarrow>
     'x heap \<Rightarrow> nat list \<Rightarrow> 'x heap \<times> py_error option" where
  "assign_ids repr sha256_hexdigest uuid5 h [] = (h, None)"
| "assign_ids repr sha256_hexdigest uuid5 h (doc # documents) =
     (case id_to_uuid repr sha256_hexdigest uuid5
             (meta_id (metadata (h doc))) (metadata (h doc)) of
        Inl e \<Rightarrow> (h, Some e)
      | Inr u \<Rightarrow>
          assign_ids repr sha256_hexdigest uuid5
            (h(doc := (h doc)\<lparr>metadata := (metadata (h doc))\<lparr>meta_id := u\<rparr>\<rparr>)) documents)"

text \<open>
  The second loop builds one record per document; \<open>embedding_fn\<close> is the embedding
  function, and \<^verbatim>\<open>[0]\<close> of an empty answer is an IndexError.
\<close>

fun build_records ::
  "(string list \<Rightarrow> 'e list) \<Rightarrow> 'x heap \<Rightarrow> nat list \<Rightarrow> py_error + ('e, 'x) row list" where
  "build_records embedding_fn h [] = Inr []"
| "build_records embedding_fn h (doc # documents) =
     (case embedding_fn [content (h doc)] of
        [] \<Rightarrow> Inl IndexError
      | e # _ \<Rightarrow>
          (case build_records embedding_fn h documents of
             Inl err \<Rightarrow> Inl err
           | Inr records \<Rightarrow>
               Inr (\<lparr>row_id = meta_id (metadata (h doc)), embedding = e,
                      document = content (h doc), cmetadata = metadata (h doc)\<rparr> # records)))"

text \<open>
  \<^verbatim>\<open>add_documents\<close> returns the heap, the store and the exception raised, if any;
  \<open>maybe_add_ids\<close> is the method of the base class. The insert is a plain \<^verbatim>\<open>INSERT\<close>.
\<close>

definition add_documents ::
  "('x heap \<Rightarrow> nat list \<Rightarrow> 'x heap) \<Rightarrow> (string list \<Rightarrow> 'e list) \<Rightarrow>
     ('x DocMetaData \<Rightarrow> string) \<Rightarrow> (string \<Rightarrow> string) \<Rightarrow> (uuid \<Rightarrow> string \<Rightarrow> uuid) \<Rightarrow>
     ('e, 'x) PostgresDB \<Rightarrow> 'x heap \<Rightarrow> nat list \<Rightarrow>
     'x heap \<times> ('e, 'x) PostgresDB \<times> py_error option" where
  "add_documents maybe_add_ids embedding_fn repr sha256_hexdigest uuid5 st h documents =
     (let h1 = maybe_add_ids h documents
      in case assign_ids repr sha256_hexdigest uuid5 h1 documents of
           (h2, Some e) \<Rightarrow> (h2, st, Some e)
         | (h2, None) \<Rightarrow>
             (case build_records embedding_fn h2 documents of
                Inl e \<Rightarrow> (h2, st, Some e)
              | Inr new_records \<Rightarrow>
                  if new_records = [] then (h2, st, None)
                  else (case execute_insert st new_records of
                          Inl e \<Rightarrow> (h2, st, Some e)
                        | Inr st' \<Rightarrow> (h2, st', None))))"

subsection \<open>Reading documents\<close>

definition parse_embedding_store_record :: "('e, 'x) row \<Rightarrow> py_error + 'x Document" where
  "parse_embedding_store_record res =
     (case DocMetaData_init ((cmetadata res)\<lparr>meta_id := row_id res\<rparr>) of
        Inl e \<Rightarrow> Inl e
      | Inr m \<Rightarrow> Inr \<lparr>content = document res, metadata = m\<rparr>)"


text \<open>
  \<^verbatim>\<open>get_documents_by_ids\<close>. The dictionary \<^verbatim>\<open>{id_: index for index, id_ in enumerate(ids)}\<close>
  keeps a key where it first came and gives it its last index. The rows whose id is
  among \<open>ids\<close> are ordered by the \<^verbatim>\<open>CASE\<close> built from it, which is null (and sorts last)
  for an id it does not list. A \<^verbatim>\<open>CASE\<close> with no \<^verbatim>\<open>WHEN\<close> is not a statement the engine
  accepts.
\<close>

definition case_whens :: "string list \<Rightarrow> (string \<times> nat) list" where
  "case_whens ids = foldl (\<lambda>d (index, ident). AList.update ident index d) [] (List.enumerate 0 ids)"

definition case_stmt :: "(string \<times> nat) list \<Rightarrow> nat \<Rightarrow> string \<Rightarrow> nat" where
  "case_stmt whens nulls_last v = (case map_of whens v of Some index \<Rightarrow> index | None \<Rightarrow> nulls_last)"

definition get_documents_by_ids ::
  "('e, 'x) PostgresDB \<Rightarrow> string list \<Rightarrow> py_error + 'x Document list" where
  "get_documents_by_ids st ids =
     (let whens = case_whens ids
      in if whens = [] then Inl ProgrammingError
         else (case bound_rows st of
                 Inl e \<Rightarrow> Inl e
               | Inr rows \<Rightarrow>
                   map_result parse_embedding_store_record
                     (sort_key (\<lambda>r. case_stmt whens (length ids) (row_id r))
                        (filter (\<lambda>r. row_id r \<in> set ids) rows))))"




section \<open>Auxiliary notions\<close>

text \<open>The last position of an element in a list: the index the dictionary of
  \<^verbatim>\<open>get_documents_by_ids\<close> gives a key.\<close>

fun last_index :: "'a list \<Rightarrow> 'a \<Rightarrow> nat" where
  "last_index [] y = 0"
| "last_index (x # xs) y = (if y \<in> set xs then Suc (last_index xs y) else 0)"

section \<open>Example states\<close>


text \<open>
  A store whose current collection has three rows, with one-dimensional embeddings, and
  stand-ins for the collaborators: the embedding of a text is its length, the distance
  of two vectors their absolute difference, the decoder rejects two strings and reads any
  other as itself, and a row passes a filter when its title is the filter.
\<close>

definition meta0 :: "string \<Rightarrow> string \<Rightarrow> unit DocMetaData" where
  "meta0 i t = \<lparr>source = ''context'', source_content = ''context'', title = t,
                published_date = ''Unknown Date'', is_chunk = False, meta_id = i,
                window_ids = [], extra = []\<rparr>"

definition store1 :: "(real, unit) PostgresDB" where
  "store1 = \<lparr>tables = [(''docs'',
                [\<lparr>row_id = ''a'', embedding = 1, document = ''alpha'', cmetadata = meta0 ''a'' ''x''\<rparr>,
                 \<lparr>row_id = ''b'', embedding = 0, document = ''beta'', cmetadata = meta0 ''b'' ''y''\<rparr>,
                 \<lparr>row_id = ''c'', embedding = 3, document = ''gamma'', cmetadata = meta0 ''c'' ''x''\<rparr>])],
             indexes = {index_name ''docs''},
             collection_name = ''docs'', replace_collection = False\<rparr>"

definition embed0 :: "string list \<Rightarrow> real list" where
  "embed0 texts = map (\<lambda>t. real (length t)) texts"




text \<open>
  A store with an empty collection and the same store after one insert; a heap in which
  every reference names a document of the given id and content; and stand-ins for the
  collaborators of \<^verbatim>\<open>add_documents\<close>: \<open>maybe_add_ids\<close> changes nothing, the representation
  of a metadata object is its title, the digest of a string is the string, and the
  name-based UUID of a name is its length.
\<close>

definition store_empty :: "(real, unit) PostgresDB" where
  "store_empty = \<lparr>tables = [(''docs'', [])], indexes = {index_name ''docs''},
                  collection_name = ''docs'', replace_collection = False\<rparr>"

definition store_one :: "(real, unit) PostgresDB" where
  "store_one = \<lparr>tables = [(''docs'',
                   [\<lparr>row_id = ''a0eebc99-9c0b-4ef8-bb6d-6bb9bd380a11'', embedding = 5,
                     document = ''first'',
                     cmetadata = meta0 ''a0eebc99-9c0b-4ef8-bb6d-6bb9bd380a11'' ''t''\<rparr>])],
                indexes = {index_name ''docs''},
                collection_name = ''docs'', replace_collection = False\<rparr>"

definition heap0 :: "string \<Rightarrow> string \<Rightarrow> unit heap" where
  "heap0 i c = (\<lambda>_. \<lparr>content = c, metadata = meta0 i ''t''\<rparr>)"

definition maybe0 :: "unit heap \<Rightarrow> nat list \<Rightarrow> unit heap" where
  "maybe0 h documents = h"

definition repr0 :: "unit DocMetaData \<Rightarrow> string" where
  "repr0 m = title m"

definition sha0 :: "string \<Rightarrow> string" where
  "sha0 s = s"

definition uuid5_0 :: "uuid \<Rightarrow> string \<Rightarrow> uuid" where
  "uuid5_0 namespace name = of_nat (length name)"

section \<open>Reading and printing a UUID\<close>

lemma lower_hex_cases:
  "lower_hex c \<Longrightarrow> digit_value c < 16 \<and> hex_char (digit_value c) = c \<and> c \<noteq> CHR ''_''
     \<and> \<not> py_isspace c \<and> c \<noteq> CHR ''+'' \<and> c \<noteq> CHR ''-'' \<and> c \<noteq> CHR ''x'' \<and> c \<noteq> CHR ''X''
     \<and> c \<noteq> CHR ''u'' \<and> c \<noteq> CHR ''{'' \<and> c \<noteq> CHR ''}''"
  unfolding lower_hex_def
  by (auto simp: digit_value_def hex_char_def py_isspace_def)

lemma hex_char_lower: "d < 16 \<Longrightarrow> lower_hex (hex_char d) \<and> digit_value (hex_char d) = d"
proof -
  assume "d < 16"
  then have "d = 0 \<or> d = 1 \<or> d = 2 \<or> d = 3 \<or> d = 4 \<or> d = 5 \<or> d = 6 \<or> d = 7 \<or> d = 8
      \<or> d = 9 \<or> d = 10 \<or> d = 11 \<or> d = 12 \<or> d = 13 \<or> d = 14 \<or> d = 15" by arith
  then show ?thesis
    by (auto simp: lower_hex_def hex_char_def digit_value_def)
qed

lemma scan_hex_lower:
  "list_all lower_hex ds \<Longrightarrow>
     scan_hex False acc ds = Some (foldl (\<lambda>a c. 16 * a + digit_value c) acc ds, [])"
  by (induction ds arbitrary: acc) (auto simp: lower_hex_cases)

lemma read_sign_lower: "lower_hex c \<Longrightarrow> read_sign (c # cs) = (1, c # cs)"
  by (simp add: read_sign_def lower_hex_cases)

lemma skip_0x_lower: "list_all lower_hex ds \<Longrightarrow> skip_0x ds = ds"
  by (auto simp: skip_0x_def lower_hex_def split: list.splits)

lemma int_base16_lower:
  assumes "list_all lower_hex ds" "ds \<noteq> []"
  shows "int_base16 ds = Inr (int (hex_value ds))"
proof -
  obtain c cs where ds: "ds = c # cs" using assms(2) by (cases ds) auto
  have c: "lower_hex c" using assms(1) ds by simp
  have s1: "dropWhile py_isspace ds = ds" using c ds by (simp add: lower_hex_cases)
  have s2: "read_sign ds = (1, ds)" using c ds by (simp add: read_sign_lower)
  have s3: "skip_0x ds = ds" using assms(1) by (rule skip_0x_lower)
  have sc: "scan_hex False 0 (c # cs) = Some (hex_value ds, [])"
    using scan_hex_lower[OF assms(1), of 0] by (simp add: hex_value_def ds)
  have nu: "c \<noteq> CHR ''_''" using c by (simp add: lower_hex_cases)
  show ?thesis
    unfolding int_base16_def s1 s2 Let_def prod.case s3
    unfolding ds list.case sc using nu by (simp add: ds)
qed

lemma hex_value_snoc: "hex_value (ds @ [c]) = 16 * hex_value ds + digit_value c"
  by (simp add: hex_value_def)

lemma to_hex_lower: "list_all lower_hex (to_hex n)"
proof (induction n rule: to_hex.induct)
  case (1 n)
  show ?case
  proof (cases "n < 16")
    case True
    then show ?thesis by (subst to_hex.simps) (simp add: hex_char_lower)
  next
    case False
    have "n mod 16 < 16" by simp
    with False 1 show ?thesis
      by (subst to_hex.simps) (simp add: hex_char_lower)
  qed
qed

lemma hex_value_to_hex: "hex_value (to_hex n) = n"
proof (induction n rule: to_hex.induct)
  case (1 n)
  show ?case
  proof (cases "n < 16")
    case True
    then show ?thesis by (subst to_hex.simps) (simp add: hex_char_lower hex_value_def)
  next
    case False
    have "n mod 16 < 16" by simp
    with False 1 show ?thesis
      by (subst to_hex.simps) (simp add: hex_char_lower hex_value_snoc)
  qed
qed

lemma length_to_hex: "0 < k \<Longrightarrow> n < 16 ^ k \<Longrightarrow> length (to_hex n) \<le> k"
proof (induction n arbitrary: k rule: to_hex.induct)
  case (1 n)
  show ?case
  proof (cases "n < 16")
    case True
    with 1(2) show ?thesis by (subst to_hex.simps) simp
  next
    case False
    obtain j where k: "k = Suc j" using 1(2) by (cases k) auto
    have j: "0 < j" using False 1(3) k by (cases j) auto
    have "n div 16 < 16 ^ j" using 1(3) k by (simp add: less_mult_imp_div_less mult.commute)
    then have "length (to_hex (n div 16)) \<le> j" using 1(1)[OF False j] by simp
    with False show ?thesis by (subst to_hex.simps) (simp add: k)
  qed
qed

lemma hex_value_replicate0: "hex_value (replicate m CHR ''0'' @ ds) = hex_value ds"
proof -
  have "foldl (\<lambda>a c. 16 * a + digit_value c) 0 (replicate m CHR ''0'') = 0"
    by (induction m) (simp_all add: digit_value_def)
  then show ?thesis by (simp add: hex_value_def)
qed

lemma format_032x_props:
  assumes "n < 16 ^ 32"
  shows "length (format_032x n) = 32" "list_all lower_hex (format_032x n)"
    "hex_value (format_032x n) = n"
proof -
  have l: "length (to_hex n) \<le> 32" using length_to_hex[of 32 n] assms by simp
  show "length (format_032x n) = 32" using l by (simp add: format_032x_def Let_def)
  have "lower_hex CHR ''0''" by (simp add: lower_hex_def)
  then show "list_all lower_hex (format_032x n)"
    using to_hex_lower[of n] by (auto simp: format_032x_def Let_def list_all_iff)
  show "hex_value (format_032x n) = n"
    by (simp add: format_032x_def Let_def hex_value_replicate0 hex_value_to_hex)
qed

lemma hex_value_bound: "list_all lower_hex ds \<Longrightarrow> hex_value ds < 16 ^ length ds"
proof (induction ds rule: rev_induct)
  case Nil
  show ?case by (simp add: hex_value_def)
next
  case (snoc c ds)
  then have "hex_value ds < 16 ^ length ds" and "digit_value c < 16"
    by (simp_all add: lower_hex_cases)
  then have "16 * hex_value ds + digit_value c < 16 * 16 ^ length ds" by arith
  then show ?case by (simp add: hex_value_snoc)
qed

lemma digit_value_inj: "lower_hex c \<Longrightarrow> lower_hex d \<Longrightarrow> digit_value c = digit_value d \<Longrightarrow> c = d"
  by (metis lower_hex_cases)

lemma hex_value_inj:
  "length xs = length ys \<Longrightarrow> list_all lower_hex xs \<Longrightarrow> list_all lower_hex ys \<Longrightarrow>
     hex_value xs = hex_value ys \<Longrightarrow> xs = ys"
proof (induction xs arbitrary: ys rule: rev_induct)
  case Nil
  then show ?case by simp
next
  case (snoc x xs)
  obtain y zs where ys: "ys = zs @ [y]"
    using snoc.prems(1) by (cases ys rule: rev_cases) auto
  have dx: "digit_value x < 16" and dy: "digit_value y < 16"
    using snoc.prems ys by (simp_all add: lower_hex_cases)
  have eq: "16 * hex_value xs + digit_value x = 16 * hex_value zs + digit_value y"
    using snoc.prems(4) ys by (simp add: hex_value_snoc)
  from eq dx dy have d: "digit_value x = digit_value y" and v: "hex_value xs = hex_value zs"
    by arith+
  have "xs = zs" using snoc.IH[of zs] snoc.prems ys v by simp
  moreover have "x = y" using d snoc.prems ys by (simp add: digit_value_inj)
  ultimately show ?case using ys by simp
qed

lemma format_hex_value:
  assumes "length ds = 32" "list_all lower_hex ds"
  shows "format_032x (hex_value ds) = ds"
proof -
  have b: "hex_value ds < 16 ^ 32" using hex_value_bound[OF assms(2)] assms(1) by simp
  show ?thesis
    using hex_value_inj[of "format_032x (hex_value ds)" ds] format_032x_props[OF b] assms
    by simp
qed

lemma str_replace_absent:
  "old \<noteq> [] \<Longrightarrow> hd old \<notin> set s \<Longrightarrow> str_replace old new s = s"
proof (induction s)
  case Nil
  then show ?case by simp
next
  case (Cons c cs)
  have "\<not> prefix old (c # cs)"
    using Cons.prems by (cases old) auto
  with Cons show ?case by simp
qed

lemma str_replace_hyphen: "str_replace ''-'' '''' s = filter (\<lambda>c. c \<noteq> CHR ''-'') s"
  by (induction s) auto

lemma dropWhile_none: "\<forall>c\<in>set s. \<not> P c \<Longrightarrow> dropWhile P s = s"
  by (cases s) auto

lemma str_strip_absent: "\<forall>c\<in>set s. c \<notin> set chars \<Longrightarrow> str_strip chars s = s"
  by (simp add: str_strip_def dropWhile_none)

lemma list_all_take_drop:
  "list_all P xs \<Longrightarrow> list_all P (take n xs) \<and> list_all P (drop n xs)"
  unfolding list_all_iff by (meson in_set_dropD in_set_takeD)

lemma uuid_fmt_chars:
  assumes "list_all lower_hex ds"
  shows "\<forall>c\<in>set (uuid_fmt ds). lower_hex c \<or> c = CHR ''-''"
proof -
  have parts: "list_all lower_hex (take 8 ds)" "list_all lower_hex (take 4 (drop 8 ds))"
    "list_all lower_hex (take 4 (drop 12 ds))" "list_all lower_hex (take 4 (drop 16 ds))"
    "list_all lower_hex (drop 20 ds)"
    using assms by (simp_all add: list_all_take_drop)
  then show ?thesis
    unfolding uuid_fmt_def list_all_iff by auto
qed

lemma filter_lower_hex: "list_all lower_hex xs \<Longrightarrow> filter (\<lambda>c. c \<noteq> CHR ''-'') xs = xs"
  by (induction xs) (auto simp: lower_hex_cases)

lemma uuid_fmt_unhyphen:
  assumes "list_all lower_hex ds"
  shows "filter (\<lambda>c. c \<noteq> CHR ''-'') (uuid_fmt ds) = ds"
proof -
  have parts: "list_all lower_hex (take 8 ds)" "list_all lower_hex (take 4 (drop 8 ds))"
    "list_all lower_hex (take 4 (drop 12 ds))" "list_all lower_hex (take 4 (drop 16 ds))"
    "list_all lower_hex (drop 20 ds)"
    using assms by (simp_all add: list_all_take_drop)
  have "filter (\<lambda>c. c \<noteq> CHR ''-'') (uuid_fmt ds)
      = take 8 ds @ take 4 (drop 8 ds) @ take 4 (drop 12 ds) @ take 4 (drop 16 ds) @ drop 20 ds"
    unfolding uuid_fmt_def by (simp add: filter_lower_hex parts)
  also have "\<dots> = take 8 ds @ take 4 (drop 8 ds) @ take 4 (drop 12 ds) @ drop 16 ds"
    using append_take_drop_id[of 4 "drop 16 ds"] by simp
  also have "\<dots> = take 8 ds @ take 4 (drop 8 ds) @ drop 12 ds"
    using append_take_drop_id[of 4 "drop 12 ds"] by simp
  also have "\<dots> = take 8 ds @ drop 8 ds"
    using append_take_drop_id[of 4 "drop 8 ds"] by simp
  also have "\<dots> = ds" by simp
  finally show ?thesis .
qed

lemma uuid_UUID_fmt:
  assumes "length ds = 32" "list_all lower_hex ds"
  shows "uuid_UUID (uuid_fmt ds) = Inr (of_nat (hex_value ds))"
proof -
  let ?s = "uuid_fmt ds"
  have ch: "\<forall>c\<in>set ?s. lower_hex c \<or> c = CHR ''-''" using assms(2) by (rule uuid_fmt_chars)
  have nu: "CHR ''u'' \<notin> set ?s"
  proof
    assume "CHR ''u'' \<in> set ?s"
    with ch have "lower_hex CHR ''u'' \<or> CHR ''u'' = CHR ''-''" by blast
    then show False by (simp add: lower_hex_def)
  qed
  have r1: "str_replace ''urn:'' '''' ?s = ?s" using nu by (simp add: str_replace_absent)
  have r2: "str_replace ''uuid:'' '''' ?s = ?s" using nu by (simp add: str_replace_absent)
  have "c \<notin> set ''{}''" if "c \<in> set ?s" for c
  proof -
    from ch that have "lower_hex c \<or> c = CHR ''-''" by blast
    then show ?thesis by (auto simp: lower_hex_def)
  qed
  then have r3: "str_strip ''{}'' ?s = ?s" by (intro str_strip_absent) blast
  have r4: "str_replace ''-'' '''' ?s = ds"
    by (simp add: str_replace_hyphen uuid_fmt_unhyphen assms(2))
  have ne: "ds \<noteq> []" using assms(1) by auto
  have r5: "int_base16 ds = Inr (int (hex_value ds))" using assms(2) ne by (rule int_base16_lower)
  have "hex_value ds < 16 ^ 32" using hex_value_bound[OF assms(2)] assms(1) by simp
  then have b: "int (hex_value ds) < 2 ^ 128" by simp
  show ?thesis
    unfolding uuid_UUID_def r1 r2 r3 r4 Let_def using b by (simp add: assms(1) r5)
qed

lemma uuid_UUID_str: "uuid_UUID (uuid_str w) = Inr w"
proof -
  have "unat w < 2 ^ 128" using unsigned_less[of w] by simp
  then have b: "unat w < 16 ^ 32" by simp
  show ?thesis
    unfolding uuid_str_def
    using uuid_UUID_fmt[OF format_032x_props(1,2)[OF b]] format_032x_props(3)[OF b]
    by simp
qed

lemma uuid_hex_part_fmt:
  assumes "length ds = 32"
  shows "uuid_hex_part (uuid_fmt ds) = ds"
proof -
  have "uuid_hex_part (uuid_fmt ds)
      = take 8 ds @ take 4 (drop 8 ds) @ take 4 (drop 12 ds) @ take 4 (drop 16 ds) @ drop 20 ds"
    using assms by (simp add: uuid_hex_part_def uuid_fmt_def)
  also have "\<dots> = take 8 ds @ take 4 (drop 8 ds) @ take 4 (drop 12 ds) @ drop 16 ds"
    using append_take_drop_id[of 4 "drop 16 ds"] by simp
  also have "\<dots> = take 8 ds @ take 4 (drop 8 ds) @ drop 12 ds"
    using append_take_drop_id[of 4 "drop 12 ds"] by simp
  also have "\<dots> = take 8 ds @ drop 8 ds"
    using append_take_drop_id[of 4 "drop 8 ds"] by simp
  also have "\<dots> = ds" by simp
  finally show ?thesis .
qed

lemma length_uuid_fmt: "length ds = 32 \<Longrightarrow> length (uuid_fmt ds) = 36"
  by (simp add: uuid_fmt_def)

lemma canonical_uuid_fmt:
  "length ds = 32 \<Longrightarrow> list_all lower_hex ds \<Longrightarrow> canonical_uuid (uuid_fmt ds)"
  by (simp add: canonical_uuid_def uuid_hex_part_fmt length_uuid_fmt)

lemma unat_lt_16_32: "unat (w :: uuid) < 16 ^ 32"
proof -
  have "unat w < 2 ^ 128" using unsigned_less[of w] by simp
  then show ?thesis by simp
qed

lemma canonical_uuid_str: "canonical_uuid (uuid_str w)"
  unfolding uuid_str_def
  using format_032x_props(1,2)[OF unat_lt_16_32[of w]] by (rule canonical_uuid_fmt)

lemma uuid_str_canonical:
  assumes "canonical_uuid s"
  shows "\<exists>w. uuid_UUID s = Inr w \<and> uuid_str w = s"
proof -
  let ?ds = "uuid_hex_part s"
  have len: "length ?ds = 32" using assms by (simp add: canonical_uuid_def uuid_hex_part_def)
  have low: "list_all lower_hex ?ds" using assms by (simp add: canonical_uuid_def)
  have s: "s = uuid_fmt ?ds" using assms by (simp add: canonical_uuid_def)
  have b: "hex_value ?ds < 2 ^ 128" using hex_value_bound[OF low] len by simp
  have u: "unat (of_nat (hex_value ?ds) :: uuid) = hex_value ?ds"
    using b by (intro of_nat_inverse) simp_all
  have p: "uuid_UUID (uuid_fmt ?ds) = Inr (of_nat (hex_value ?ds))"
    using len low by (rule uuid_UUID_fmt)
  have "uuid_str (of_nat (hex_value ?ds)) = uuid_fmt ?ds"
    unfolding uuid_str_def u by (simp add: format_hex_value[OF len low])
  with p s show ?thesis by metis
qed

section \<open>Derived identities\<close>

lemma uuid_UUID_error: "uuid_UUID s = Inl e \<Longrightarrow> e = ValueError"
proof -
  have i: "int_base16 t = Inl e' \<Longrightarrow> e' = ValueError" for t e'
    unfolding int_base16_def Let_def
    by (auto split: prod.splits list.splits if_splits option.splits)
  assume "uuid_UUID s = Inl e"
  then show ?thesis
    unfolding uuid_UUID_def Let_def
    by (auto split: if_splits sum.splits dest: i)
qed

lemma id_to_uuid_cases:
  "id_to_uuid R S U i m =
     (case uuid_UUID i of
        Inr u \<Rightarrow> Inr (uuid_str u)
      | Inl e \<Rightarrow> Inr (uuid_str (U NAMESPACE_DNS (i @ ''-'' @ S (R m)))))"
  by (auto simp: id_to_uuid_def Let_def split: sum.splits dest: uuid_UUID_error)

lemma id_to_uuid_total: "\<exists>w. id_to_uuid R S U i m = Inr (uuid_str w)"
  by (auto simp: id_to_uuid_cases split: sum.splits)

lemma id_to_uuid_fixed: "id_to_uuid R S U (uuid_str w) m = Inr (uuid_str w)"
  by (simp add: id_to_uuid_cases uuid_UUID_str)


text \<open>
  Claim C2, as the code has it: a candidate id in the canonical form of a UUID (32 lower-case
  hex digits in groups of 8, 4, 4, 4 and 12, hyphens between) is returned unchanged,
  character for character. Any other spelling of a UUID that \<^verbatim>\<open>uuid.UUID\<close> reads is
  returned in this canonical form, not as it was given.
\<close>

theorem id_to_uuid_canonical_unchanged:
  "(canonical_uuid ident \<longrightarrow>
      id_to_uuid repr sha256_hexdigest uuid5 ident obj = Inr ident)
   \<and> (uuid_UUID ident = Inr u \<longrightarrow>
        id_to_uuid repr sha256_hexdigest uuid5 ident obj = Inr (uuid_str u)
        \<and> canonical_uuid (uuid_str u) \<and> uuid_UUID (uuid_str u) = Inr u)"
proof (intro conjI impI)
  assume "canonical_uuid ident"
  then obtain w where "uuid_UUID ident = Inr w" "uuid_str w = ident"
    using uuid_str_canonical by blast
  then show "id_to_uuid repr sha256_hexdigest uuid5 ident obj = Inr ident"
    by (simp add: id_to_uuid_def)
next
  assume "uuid_UUID ident = Inr u"
  then show "id_to_uuid repr sha256_hexdigest uuid5 ident obj = Inr (uuid_str u)"
    by (simp add: id_to_uuid_def)
next
  show "canonical_uuid (uuid_str u)" by (rule canonical_uuid_str)
next
  show "uuid_UUID (uuid_str u) = Inr u" by (rule uuid_UUID_str)
qed

lemma example_canonical: "canonical_uuid ''a0eebc99-9c0b-4ef8-bb6d-6bb9bd380a11''"
proof -
  have p: "uuid_hex_part ''a0eebc99-9c0b-4ef8-bb6d-6bb9bd380a11'' = ''a0eebc999c0b4ef8bb6d6bb9bd380a11''"
    by (simp add: uuid_hex_part_def)
  have f: "uuid_fmt ''a0eebc999c0b4ef8bb6d6bb9bd380a11'' = ''a0eebc99-9c0b-4ef8-bb6d-6bb9bd380a11''"
    by (simp add: uuid_fmt_def)
  have l: "list_all lower_hex ''a0eebc999c0b4ef8bb6d6bb9bd380a11''"
    by (simp add: lower_hex_def)
  show ?thesis unfolding canonical_uuid_def p f using l by simp
qed

lemma example_upper_parse:
  "uuid_UUID ''A0EEBC99-9C0B-4EF8-BB6D-6BB9BD380A11'' = Inr 0xA0EEBC999C0B4EF8BB6D6BB9BD380A11"
  by (simp add: uuid_UUID_def str_strip_def int_base16_def read_sign_def skip_0x_def
      py_isspace_def digit_value_def)

lemma example_str:
  "uuid_str 0xA0EEBC999C0B4EF8BB6D6BB9BD380A11 = ''a0eebc99-9c0b-4ef8-bb6d-6bb9bd380a11''"
proof -
  have u: "unat (0xA0EEBC999C0B4EF8BB6D6BB9BD380A11 :: uuid) = 0xA0EEBC999C0B4EF8BB6D6BB9BD380A11"
    by simp
  have f: "format_032x 0xA0EEBC999C0B4EF8BB6D6BB9BD380A11 = ''a0eebc999c0b4ef8bb6d6bb9bd380a11''"
    by (simp add: format_032x_def to_hex.simps hex_char_def)
  show ?thesis unfolding uuid_str_def u f by (simp add: uuid_fmt_def)
qed

text \<open>
  A canonical id, which comes back as it is, and an upper-case one, which comes back in
  the canonical form of the UUID read from it.
\<close>

theorem id_to_uuid_canonical_unchanged_witness:
  "canonical_uuid ''a0eebc99-9c0b-4ef8-bb6d-6bb9bd380a11''
   \<and> id_to_uuid (\<lambda>_ :: unit. []) (\<lambda>_. []) (\<lambda>_ _. 0) ''a0eebc99-9c0b-4ef8-bb6d-6bb9bd380a11'' ()
       = Inr ''a0eebc99-9c0b-4ef8-bb6d-6bb9bd380a11''
   \<and> uuid_UUID ''A0EEBC99-9C0B-4EF8-BB6D-6BB9BD380A11'' = Inr 0xA0EEBC999C0B4EF8BB6D6BB9BD380A11
   \<and> id_to_uuid (\<lambda>_ :: unit. []) (\<lambda>_. []) (\<lambda>_ _. 0) ''A0EEBC99-9C0B-4EF8-BB6D-6BB9BD380A11'' ()
       = Inr (uuid_str 0xA0EEBC999C0B4EF8BB6D6BB9BD380A11)"
  using example_canonical example_upper_parse
    id_to_uuid_canonical_unchanged[of "''a0eebc99-9c0b-4ef8-bb6d-6bb9bd380a11''"
      "\<lambda>_ :: unit. []" "\<lambda>_. []" "\<lambda>_ _. 0" "()" 0]
    id_to_uuid_canonical_unchanged[of "''A0EEBC99-9C0B-4EF8-BB6D-6BB9BD380A11''"
      "\<lambda>_ :: unit. []" "\<lambda>_. []" "\<lambda>_ _. 0" "()" "0xA0EEBC999C0B4EF8BB6D6BB9BD380A11"]
  by simp

text \<open>
  Claim C2 as stated fails on an upper-case UUID: it parses, and the id returned is its
  lower-case form, a different string.
\<close>

theorem id_to_uuid_upper_case_counterexample:
  "uuid_UUID ''A0EEBC99-9C0B-4EF8-BB6D-6BB9BD380A11'' = Inr 0xA0EEBC999C0B4EF8BB6D6BB9BD380A11 \<and>
   id_to_uuid (\<lambda>_ :: unit. []) (\<lambda>_. []) (\<lambda>_ _. 0) ''A0EEBC99-9C0B-4EF8-BB6D-6BB9BD380A11'' ()
     = Inr ''a0eebc99-9c0b-4ef8-bb6d-6bb9bd380a11'' \<and>
   ''a0eebc99-9c0b-4ef8-bb6d-6bb9bd380a11'' \<noteq> ''A0EEBC99-9C0B-4EF8-BB6D-6BB9BD380A11''"
  by (simp add: id_to_uuid_def example_upper_parse example_str)




lemma example_not_uuid: "uuid_UUID ''doc1'' = Inl ValueError"
  by (simp add: uuid_UUID_def str_strip_def)




section \<open>Collections\<close>







section \<open>Queries\<close>

lemma DocMetaData_init_Inr: "DocMetaData_init m = Inr m' \<Longrightarrow> m' = m"
  by (auto simp: DocMetaData_init_def ensure_not_empty_def split: if_splits)

lemma map_result_Inr:
  "map_result f xs = Inr ys \<Longrightarrow> list_all2 (\<lambda>x y. f x = Inr y) xs ys"
  by (induction xs arbitrary: ys) (auto split: sum.splits)

lemma map_result_total:
  "\<forall>x\<in>set xs. \<exists>y. f x = Inr y \<Longrightarrow> \<exists>ys. map_result f xs = Inr ys"
  by (induction xs) (auto split: sum.splits)


















section \<open>Writing documents\<close>

lemma assign_ids_spec:
  "\<exists>h'. assign_ids R S U h docs = (h', None)
     \<and> (\<forall>a. a \<notin> set docs \<longrightarrow> h' a = h a)
     \<and> (\<forall>a\<in>set docs.
          id_to_uuid R S U (meta_id (metadata (h a))) (metadata (h a))
            = Inr (meta_id (metadata (h' a)))
          \<and> h' a = (h a)\<lparr>metadata := (metadata (h a))\<lparr>meta_id := meta_id (metadata (h' a))\<rparr>\<rparr>)"
proof (induction docs arbitrary: h)
  case Nil
  show ?case by simp
next
  case (Cons d docs)
  obtain w where w: "id_to_uuid R S U (meta_id (metadata (h d))) (metadata (h d)) = Inr (uuid_str w)"
    using id_to_uuid_total[of R S U "meta_id (metadata (h d))" "metadata (h d)"] by blast
  let ?h1 = "h(d := (h d)\<lparr>metadata := (metadata (h d))\<lparr>meta_id := uuid_str w\<rparr>\<rparr>)"
  obtain h' where a: "assign_ids R S U ?h1 docs = (h', None)"
    and frame: "\<forall>a. a \<notin> set docs \<longrightarrow> h' a = ?h1 a"
    and upd: "\<forall>a\<in>set docs.
          id_to_uuid R S U (meta_id (metadata (?h1 a))) (metadata (?h1 a))
            = Inr (meta_id (metadata (h' a)))
          \<and> h' a = (?h1 a)\<lparr>metadata := (metadata (?h1 a))\<lparr>meta_id := meta_id (metadata (h' a))\<rparr>\<rparr>"
    using Cons.IH[of ?h1] by blast
  have run: "assign_ids R S U h (d # docs) = (h', None)" using w a by simp
  have d: "meta_id (metadata (h' d)) = uuid_str w
      \<and> h' d = (h d)\<lparr>metadata := (metadata (h d))\<lparr>meta_id := uuid_str w\<rparr>\<rparr>"
  proof (cases "d \<in> set docs")
    case True
    with upd have 1: "id_to_uuid R S U (meta_id (metadata (?h1 d))) (metadata (?h1 d))
            = Inr (meta_id (metadata (h' d)))"
      and 2: "h' d = (?h1 d)\<lparr>metadata := (metadata (?h1 d))\<lparr>meta_id := meta_id (metadata (h' d))\<rparr>\<rparr>"
      by blast+
    have "meta_id (metadata (?h1 d)) = uuid_str w" by simp
    then have "meta_id (metadata (h' d)) = uuid_str w"
      using 1 id_to_uuid_fixed[of R S U w "metadata (?h1 d)"] by simp
    then show ?thesis using 2 by simp
  next
    case False
    then have "h' d = ?h1 d" using frame by blast
    then show ?thesis by simp
  qed
  have other: "id_to_uuid R S U (meta_id (metadata (h a))) (metadata (h a))
            = Inr (meta_id (metadata (h' a)))
          \<and> h' a = (h a)\<lparr>metadata := (metadata (h a))\<lparr>meta_id := meta_id (metadata (h' a))\<rparr>\<rparr>"
    if "a \<in> set docs" "a \<noteq> d" for a
  proof -
    have e: "?h1 a = h a" using that(2) by simp
    have "id_to_uuid R S U (meta_id (metadata (?h1 a))) (metadata (?h1 a))
            = Inr (meta_id (metadata (h' a)))
          \<and> h' a = (?h1 a)\<lparr>metadata := (metadata (?h1 a))\<lparr>meta_id := meta_id (metadata (h' a))\<rparr>\<rparr>"
      using upd that(1) by blast
    then show ?thesis unfolding e .
  qed
  have "\<forall>a. a \<notin> set (d # docs) \<longrightarrow> h' a = h a" using frame by simp
  moreover have "\<forall>a\<in>set (d # docs).
          id_to_uuid R S U (meta_id (metadata (h a))) (metadata (h a))
            = Inr (meta_id (metadata (h' a)))
          \<and> h' a = (h a)\<lparr>metadata := (metadata (h a))\<lparr>meta_id := meta_id (metadata (h' a))\<rparr>\<rparr>"
  proof
    fix a assume "a \<in> set (d # docs)"
    then consider "a = d" | "a \<in> set docs" "a \<noteq> d" by auto
    then show "id_to_uuid R S U (meta_id (metadata (h a))) (metadata (h a))
            = Inr (meta_id (metadata (h' a)))
          \<and> h' a = (h a)\<lparr>metadata := (metadata (h a))\<lparr>meta_id := meta_id (metadata (h' a))\<rparr>\<rparr>"
    proof cases
      case 1
      then show ?thesis using d w by simp
    next
      case 2
      then show ?thesis by (rule other)
    qed
  qed
  ultimately show ?case using run by blast
qed

lemma build_records_Inr:
  "build_records E h docs = Inr recs \<Longrightarrow>
     list_all2 (\<lambda>a r. row_id r = meta_id (metadata (h a)) \<and> document r = content (h a)
                  \<and> cmetadata r = metadata (h a)) docs recs"
  by (induction docs arbitrary: recs) (auto split: list.splits sum.splits)

lemma build_records_total:
  "\<forall>c. E [c] \<noteq> [] \<Longrightarrow> \<exists>recs. build_records E h docs = Inr recs"
proof (induction docs)
  case Nil
  show ?case by simp
next
  case (Cons d docs)
  then obtain recs where "build_records E h docs = Inr recs" by blast
  moreover obtain e tl where "E [content (h d)] = e # tl"
    using Cons.prems by (cases "E [content (h d)]") auto
  ultimately show ?case by simp
qed

lemma insert_many_Inr: "insert_many rows rs = Inr rows' \<Longrightarrow> rows' = rows @ rs"
  by (induction rs arbitrary: rows) (fastforce split: if_splits)+

lemma insert_many_error: "insert_many rows rs = Inl e \<Longrightarrow> e = IntegrityError"
  by (induction rs arbitrary: rows) (auto split: if_splits)

lemma insert_many_conflict:
  "\<exists>r\<in>set rs. row_id r \<in> row_id ` set rows \<Longrightarrow> insert_many rows rs = Inl IntegrityError"
proof (induction rs arbitrary: rows)
  case Nil
  then show ?case by simp
next
  case (Cons r rs)
  show ?case
  proof (cases "row_id r \<in> row_id ` set rows")
    case True
    then show ?thesis by simp
  next
    case False
    then have "\<exists>r'\<in>set rs. row_id r' \<in> row_id ` set (rows @ [r])"
      using Cons.prems by auto
    then have "insert_many (rows @ [r]) rs = Inl IntegrityError" by (rule Cons.IH)
    then show ?thesis using False by simp
  qed
qed

lemma insert_many_distinct:
  "distinct (map row_id rows) \<Longrightarrow> insert_many rows rs = Inr rows' \<Longrightarrow> distinct (map row_id rows')"
proof (induction rs arbitrary: rows)
  case Nil
  then show ?case by simp
next
  case (Cons r rs)
  then have f: "row_id r \<notin> row_id ` set rows" and i: "insert_many (rows @ [r]) rs = Inr rows'"
    by (auto split: if_splits)
  have "distinct (map row_id (rows @ [r]))" using Cons.prems(1) f by simp
  then show ?case using i by (rule Cons.IH)
qed

lemma execute_insert_Inr:
  assumes "execute_insert st recs = Inr st'"
  shows "\<exists>rows. bound_rows st = Inr rows \<and> bound_rows st' = Inr (rows @ recs)"
proof -
  obtain rows where r: "bound_rows st = Inr rows"
    using assms by (auto simp: execute_insert_def split: sum.splits)
  then obtain rows' where i: "insert_many rows recs = Inr rows'"
    and s: "st' = st\<lparr>tables := AList.update (collection_name st) rows' (tables st)\<rparr>"
    using assms by (auto simp: execute_insert_def split: sum.splits)
  have "bound_rows st' = Inr rows'"
    unfolding s bound_rows_def by (simp add: update_conv')
  then show ?thesis using r insert_many_Inr[OF i] by simp
qed


lemma unique_key:
  "distinct (map f xs) \<Longrightarrow> x \<in> f ` set xs \<Longrightarrow> length (filter (\<lambda>r. f r = x) xs) = 1"
proof (induction xs)
  case Nil
  then show ?case by simp
next
  case (Cons a xs)
  show ?case
  proof (cases "f a = x")
    case True
    then have "x \<notin> f ` set xs" using Cons.prems(1) by auto
    then have "filter (\<lambda>r. f r = x) xs = []" by (auto simp: filter_empty_conv)
    then show ?thesis using True by simp
  next
    case False
    then have "x \<in> f ` set xs" using Cons.prems(2) by auto
    then show ?thesis using Cons False by simp
  qed
qed

lemma add_documents_heap:
  assumes "add_documents M E R S U st h docs = (h', st', err)"
  shows "assign_ids R S U (M h docs) docs = (h', None)"
proof -
  obtain h2 where a: "assign_ids R S U (M h docs) docs = (h2, None)"
    using assign_ids_spec[of R S U "M h docs" docs] by blast
  then have "fst (add_documents M E R S U st h docs) = h2"
    by (simp add: add_documents_def Let_def split: sum.splits)
  then show ?thesis using a assms by simp
qed

text \<open>
  Claim C1, as the code has it: the insert is a plain \<^verbatim>\<open>INSERT\<close> into a table whose id is
  the primary key. When the derived id of a document of the batch is already stored,
  \<^verbatim>\<open>add_documents\<close> raises an IntegrityError and the store is as it was: there is exactly
  one record of that id, the one stored before.
\<close>

theorem add_documents_existing_id_fails:
  assumes "bound_rows st = Inr rows"
    and "distinct (map row_id rows)"
    and "\<forall>c. embedding_fn [c] \<noteq> []"
    and "doc \<in> set documents"
    and "id_to_uuid repr sha256_hexdigest uuid5
           (meta_id (metadata (maybe_add_ids h documents doc)))
           (metadata (maybe_add_ids h documents doc)) = Inr u"
    and "u \<in> row_id ` set rows"
  shows "snd (add_documents maybe_add_ids embedding_fn repr sha256_hexdigest uuid5 st h documents)
           = (st, Some IntegrityError)
         \<and> length (filter (\<lambda>r. row_id r = u) rows) = 1"
proof -
  let ?h1 = "maybe_add_ids h documents"
  obtain h2 where a: "assign_ids repr sha256_hexdigest uuid5 ?h1 documents = (h2, None)"
    and upd: "\<forall>a\<in>set documents.
          id_to_uuid repr sha256_hexdigest uuid5 (meta_id (metadata (?h1 a))) (metadata (?h1 a))
            = Inr (meta_id (metadata (h2 a)))
          \<and> h2 a = (?h1 a)\<lparr>metadata := (metadata (?h1 a))\<lparr>meta_id := meta_id (metadata (h2 a))\<rparr>\<rparr>"
    using assign_ids_spec[of repr sha256_hexdigest uuid5 ?h1 documents] by blast
  have u: "meta_id (metadata (h2 doc)) = u" using upd assms(4,5) by fastforce
  obtain recs where b: "build_records embedding_fn h2 documents = Inr recs"
    using build_records_total[OF assms(3)] by blast
  have l: "list_all2 (\<lambda>a r. row_id r = meta_id (metadata (h2 a)) \<and> document r = content (h2 a)
                  \<and> cmetadata r = metadata (h2 a)) documents recs"
    using b by (rule build_records_Inr)
  obtain i where i: "i < length documents" "documents ! i = doc"
    using assms(4) by (auto simp: in_set_conv_nth)
  have len: "length recs = length documents" using l by (simp add: list_all2_lengthD)
  have "row_id (recs ! i) = u" using list_all2_nthD[OF l i(1)] i(2) u by simp
  moreover have "recs ! i \<in> set recs" using i(1) len by simp
  ultimately have "\<exists>r\<in>set recs. row_id r \<in> row_id ` set rows" using assms(6) by blast
  then have c: "insert_many rows recs = Inl IntegrityError" by (rule insert_many_conflict)
  have ne: "recs \<noteq> []" using len i(1) by auto
  have "execute_insert st recs = Inl IntegrityError"
    using assms(1) c by (simp add: execute_insert_def)
  then have "snd (add_documents maybe_add_ids embedding_fn repr sha256_hexdigest uuid5 st h documents)
           = (st, Some IntegrityError)"
    using a b ne by (simp add: add_documents_def)
  moreover have "length (filter (\<lambda>r. row_id r = u) rows) = 1"
    using assms(2,6) by (rule unique_key)
  ultimately show ?thesis by blast
qed


lemma example_id_fixed:
  "id_to_uuid R S U ''a0eebc99-9c0b-4ef8-bb6d-6bb9bd380a11'' m
     = Inr ''a0eebc99-9c0b-4ef8-bb6d-6bb9bd380a11''"
  using id_to_uuid_fixed[of R S U "0xA0EEBC999C0B4EF8BB6D6BB9BD380A11" m]
  unfolding example_str .

lemma example_first_insert:
  "snd (add_documents maybe0 embed0 repr0 sha0 uuid5_0 store_empty
          (heap0 ''a0eebc99-9c0b-4ef8-bb6d-6bb9bd380a11'' ''first'') [0])
     = (store_one, None)"
  by (simp add: add_documents_def maybe0_def heap0_def example_id_fixed meta0_def embed0_def
      execute_insert_def bound_rows_def store_empty_def store_one_def)

lemma example_second_insert:
  "snd (add_documents maybe0 embed0 repr0 sha0 uuid5_0 store_one
          (heap0 ''a0eebc99-9c0b-4ef8-bb6d-6bb9bd380a11'' ''second'') [0])
     = (store_one, Some IntegrityError)"
  by (simp add: add_documents_def maybe0_def heap0_def example_id_fixed meta0_def embed0_def
      execute_insert_def bound_rows_def store_one_def)

text \<open>
  The store after one insert, and the same id inserted again.
\<close>

theorem add_documents_existing_id_fails_witness:
  "bound_rows store_one
     = Inr [\<lparr>row_id = ''a0eebc99-9c0b-4ef8-bb6d-6bb9bd380a11'', embedding = 5,
             document = ''first'',
             cmetadata = meta0 ''a0eebc99-9c0b-4ef8-bb6d-6bb9bd380a11'' ''t''\<rparr>]
   \<and> embed0 [''second''] \<noteq> []
   \<and> snd (add_documents maybe0 embed0 repr0 sha0 uuid5_0 store_one
          (heap0 ''a0eebc99-9c0b-4ef8-bb6d-6bb9bd380a11'' ''second'') [0])
       = (store_one, Some IntegrityError)"
proof -
  let ?u = "''a0eebc99-9c0b-4ef8-bb6d-6bb9bd380a11''"
  let ?rows = "[\<lparr>row_id = ?u, embedding = 5 :: real, document = ''first'',
                cmetadata = meta0 ?u ''t''\<rparr>]"
  have b: "bound_rows store_one = Inr ?rows" by (simp add: bound_rows_def store_one_def)
  have d: "distinct (map row_id ?rows)" by simp
  have e: "\<forall>c. embed0 [c] \<noteq> []" by (simp add: embed0_def)
  have m: "(0 :: nat) \<in> set [0]" by simp
  have i: "id_to_uuid repr0 sha0 uuid5_0
             (meta_id (metadata (maybe0 (heap0 ?u ''second'') [0] 0)))
             (metadata (maybe0 (heap0 ?u ''second'') [0] 0)) = Inr ?u"
    by (simp add: maybe0_def heap0_def meta0_def example_id_fixed)
  have r: "?u \<in> row_id ` set ?rows" by simp
  show ?thesis
    using b e
      add_documents_existing_id_fails[where maybe_add_ids = maybe0
        and h = "heap0 ?u ''second''" and documents = "[0]" and doc = 0, OF b d e m i r]
    by simp
qed

text \<open>
  Claim C1 as stated fails: the first insert of a document stores it, the second insert
  of a document of the same id raises, and the record keeps the content of the first.
\<close>

theorem add_documents_reinsert_counterexample:
  "snd (add_documents maybe0 embed0 repr0 sha0 uuid5_0 store_empty
          (heap0 ''a0eebc99-9c0b-4ef8-bb6d-6bb9bd380a11'' ''first'') [0])
     = (store_one, None)
   \<and> snd (add_documents maybe0 embed0 repr0 sha0 uuid5_0 store_one
          (heap0 ''a0eebc99-9c0b-4ef8-bb6d-6bb9bd380a11'' ''second'') [0])
       = (store_one, Some IntegrityError)
   \<and> map document (snd (hd (tables store_one))) = [''first'']"
  using example_first_insert example_second_insert by (simp add: store_one_def)

text \<open>
  Claim C10: whatever \<^verbatim>\<open>add_documents\<close> goes on to do, every document object of the
  sequence ends with its \<^verbatim>\<open>metadata.id\<close> replaced by the id derived from the id and
  metadata it had after \<^verbatim>\<open>maybe_add_ids\<close>, a canonical UUID string, with nothing else of
  the object changed and no other object changed; and when the call returns, a record of
  that id, with the document's content and its changed metadata, is in the collection.
\<close>

theorem add_documents_mutates_ids:
  assumes "add_documents maybe_add_ids embedding_fn repr sha256_hexdigest uuid5 st h documents
             = (h', st', err)"
  shows "(\<forall>doc\<in>set documents.
            id_to_uuid repr sha256_hexdigest uuid5
                (meta_id (metadata (maybe_add_ids h documents doc)))
                (metadata (maybe_add_ids h documents doc))
              = Inr (meta_id (metadata (h' doc)))
            \<and> canonical_uuid (meta_id (metadata (h' doc)))
            \<and> h' doc = (maybe_add_ids h documents doc)
                 \<lparr>metadata := (metadata (maybe_add_ids h documents doc))
                    \<lparr>meta_id := meta_id (metadata (h' doc))\<rparr>\<rparr>)
         \<and> (\<forall>a. a \<notin> set documents \<longrightarrow> h' a = maybe_add_ids h documents a)
         \<and> (err = None \<and> documents \<noteq> [] \<longrightarrow>
              (\<exists>rows. bound_rows st' = Inr rows
                 \<and> (\<forall>doc\<in>set documents. \<exists>r\<in>set rows.
                       row_id r = meta_id (metadata (h' doc))
                       \<and> document r = content (h' doc)
                       \<and> cmetadata r = metadata (h' doc))))"
proof -
  let ?h1 = "maybe_add_ids h documents"
  have a: "assign_ids repr sha256_hexdigest uuid5 ?h1 documents = (h', None)"
    using assms by (rule add_documents_heap)
  obtain h2 where a2: "assign_ids repr sha256_hexdigest uuid5 ?h1 documents = (h2, None)"
    and frame: "\<forall>a. a \<notin> set documents \<longrightarrow> h2 a = ?h1 a"
    and upd: "\<forall>a\<in>set documents.
          id_to_uuid repr sha256_hexdigest uuid5 (meta_id (metadata (?h1 a))) (metadata (?h1 a))
            = Inr (meta_id (metadata (h2 a)))
          \<and> h2 a = (?h1 a)\<lparr>metadata := (metadata (?h1 a))\<lparr>meta_id := meta_id (metadata (h2 a))\<rparr>\<rparr>"
    using assign_ids_spec[of repr sha256_hexdigest uuid5 ?h1 documents] by blast
  have h2: "h2 = h'" using a a2 by simp
  have canon: "canonical_uuid (meta_id (metadata (h' doc)))" if "doc \<in> set documents" for doc
  proof -
    have "id_to_uuid repr sha256_hexdigest uuid5 (meta_id (metadata (?h1 doc))) (metadata (?h1 doc))
            = Inr (meta_id (metadata (h' doc)))"
      using upd that unfolding h2 by blast
    moreover obtain w where "id_to_uuid repr sha256_hexdigest uuid5
        (meta_id (metadata (?h1 doc))) (metadata (?h1 doc)) = Inr (uuid_str w)"
      using id_to_uuid_total[of repr sha256_hexdigest uuid5
          "meta_id (metadata (?h1 doc))" "metadata (?h1 doc)"] by blast
    ultimately show ?thesis using canonical_uuid_str[of w] by simp
  qed
  have stored: "\<exists>rows. bound_rows st' = Inr rows
                 \<and> (\<forall>doc\<in>set documents. \<exists>r\<in>set rows.
                       row_id r = meta_id (metadata (h' doc))
                       \<and> document r = content (h' doc)
                       \<and> cmetadata r = metadata (h' doc))"
    if ok: "err = None" and ne: "documents \<noteq> []"
  proof -
    from assms a ok obtain recs where b: "build_records embedding_fn h' documents = Inr recs"
      by (auto simp: add_documents_def split: sum.splits if_splits)
    have l: "list_all2 (\<lambda>a r. row_id r = meta_id (metadata (h' a)) \<and> document r = content (h' a)
                  \<and> cmetadata r = metadata (h' a)) documents recs"
      using b by (rule build_records_Inr)
    then have "length recs = length documents" by (simp add: list_all2_lengthD)
    then have rne: "recs \<noteq> []" using ne by auto
    from assms a b rne ok have x: "execute_insert st recs = Inr st'"
      by (auto simp: add_documents_def split: sum.splits)
    obtain rows where rows: "bound_rows st' = Inr (rows @ recs)"
      using execute_insert_Inr[OF x] by blast
    have "\<exists>r\<in>set (rows @ recs). row_id r = meta_id (metadata (h' doc))
                       \<and> document r = content (h' doc) \<and> cmetadata r = metadata (h' doc)"
      if d: "doc \<in> set documents" for doc
    proof -
      obtain i where i: "i < length documents" "documents ! i = doc"
        using d by (auto simp: in_set_conv_nth)
      have "recs ! i \<in> set recs" using i(1) l by (simp add: list_all2_lengthD)
      then show ?thesis using list_all2_nthD[OF l i(1)] i(2) by auto
    qed
    then show ?thesis using rows by blast
  qed
  show ?thesis using upd frame canon stored unfolding h2 by blast
qed


lemma example_str6: "uuid_str 6 = ''00000000-0000-0000-0000-000000000006''"
proof -
  have u: "unat (6 :: uuid) = 6" by simp
  have t: "to_hex 6 = ''6''" by (simp add: to_hex.simps hex_char_def)
  have r: "replicate 31 CHR ''0'' = ''0000000000000000000000000000000''"
    by (simp add: numeral_eq_Suc)
  have f: "format_032x 6 = ''00000000000000000000000000000006''"
    unfolding format_032x_def t Let_def using r by simp
  show ?thesis unfolding uuid_str_def u f by (simp add: uuid_fmt_def)
qed

lemma example_derived:
  "id_to_uuid repr0 sha0 uuid5_0 ''doc1'' (meta0 ''doc1'' ''t'')
     = Inr ''00000000-0000-0000-0000-000000000006''"
  by (simp add: id_to_uuid_def example_not_uuid repr0_def sha0_def uuid5_0_def meta0_def
      example_str6)

text \<open>
  A document whose id is \<^verbatim>\<open>doc1\<close> before the call has the derived id after it.
\<close>

theorem add_documents_mutates_ids_witness:
  "meta_id (metadata (heap0 ''doc1'' ''first'' 0)) = ''doc1''
   \<and> meta_id (metadata (fst (add_documents maybe0 embed0 repr0 sha0 uuid5_0 store_empty
                              (heap0 ''doc1'' ''first'') [0]) 0))
       = ''00000000-0000-0000-0000-000000000006''
   \<and> fst (add_documents maybe0 embed0 repr0 sha0 uuid5_0 store_empty
            (heap0 ''doc1'' ''first'') [0]) 1
       = heap0 ''doc1'' ''first'' 1
   \<and> snd (snd (add_documents maybe0 embed0 repr0 sha0 uuid5_0 store_empty
                 (heap0 ''doc1'' ''first'') [0])) = None
   \<and> (\<exists>rows. bound_rows (fst (snd (add_documents maybe0 embed0 repr0 sha0 uuid5_0 store_empty
                                     (heap0 ''doc1'' ''first'') [0]))) = Inr rows
         \<and> (\<exists>r. r \<in> set rows \<and> row_id r = ''00000000-0000-0000-0000-000000000006''
                \<and> document r = ''first''))"
proof -
  let ?res = "add_documents maybe0 embed0 repr0 sha0 uuid5_0 store_empty
                (heap0 ''doc1'' ''first'') [0]"
  have p: "?res = (fst ?res, fst (snd ?res), snd (snd ?res))" by simp
  note t = add_documents_mutates_ids[OF p]
  have m: "(0 :: nat) \<in> set [0]" by simp
  note t1 = t[THEN conjunct1, THEN bspec, OF m]
  note t2 = t[THEN conjunct2, THEN conjunct1]
  note t3 = t[THEN conjunct2, THEN conjunct2]
  have mi: "meta_id (meta0 ''doc1'' ''t'') = ''doc1''" by (simp add: meta0_def)
  have h0: "maybe0 (heap0 ''doc1'' ''first'') [0] 0
      = \<lparr>content = ''first'', metadata = meta0 ''doc1'' ''t''\<rparr>"
    by (simp add: maybe0_def heap0_def)
  have "Inr (meta_id (metadata (fst ?res 0)))
      = id_to_uuid repr0 sha0 uuid5_0 ''doc1'' (meta0 ''doc1'' ''t'')"
    using t1[THEN conjunct1] unfolding h0 by (simp add: mi)
  then have i: "meta_id (metadata (fst ?res 0)) = ''00000000-0000-0000-0000-000000000006''"
    unfolding example_derived by simp
  have "(1 :: nat) \<notin> set [0]" by simp
  then have "fst ?res 1 = maybe0 (heap0 ''doc1'' ''first'') [0] 1"
    using t2 by blast
  then have f: "fst ?res 1 = heap0 ''doc1'' ''first'' 1" by (simp add: maybe0_def)
  have "content (fst ?res 0)
      = content (\<lparr>content = ''first'', metadata = meta0 ''doc1'' ''t''\<rparr>
          \<lparr>metadata := (metadata \<lparr>content = ''first'', metadata = meta0 ''doc1'' ''t''\<rparr>)
             \<lparr>meta_id := meta_id (metadata (fst ?res 0))\<rparr>\<rparr>)"
    using t1[THEN conjunct2, THEN conjunct2] unfolding h0 by (rule arg_cong)
  then have c: "content (fst ?res 0) = ''first''" by simp
  have n: "snd (snd ?res) = None"
    using mi by (simp add: add_documents_def maybe0_def heap0_def example_derived embed0_def
        execute_insert_def bound_rows_def store_empty_def)
  have "snd (snd ?res) = None \<and> [0 :: nat] \<noteq> []" using n by simp
  then have "\<exists>rows. bound_rows (fst (snd ?res)) = Inr rows
         \<and> (\<forall>doc\<in>set [0]. \<exists>r\<in>set rows. row_id r = meta_id (metadata (fst ?res doc))
                \<and> document r = content (fst ?res doc)
                \<and> cmetadata r = metadata (fst ?res doc))"
    using t3 by blast
  then obtain rows r where "bound_rows (fst (snd ?res)) = Inr rows" "r \<in> set rows"
      "row_id r = meta_id (metadata (fst ?res 0))" "document r = content (fst ?res 0)"
    using m by blast
  then have "\<exists>rows. bound_rows (fst (snd ?res)) = Inr rows
         \<and> (\<exists>r. r \<in> set rows \<and> row_id r = ''00000000-0000-0000-0000-000000000006''
                \<and> document r = ''first'')"
    unfolding i c by blast
  moreover have "meta_id (metadata (heap0 ''doc1'' ''first'' 0)) = ''doc1''"
    using mi by (simp add: heap0_def)
  ultimately show ?thesis using i f n by blast
qed

section \<open>Lookups by id\<close>

lemma map_of_whens:
  "map_of (foldl (\<lambda>d (index, ident). AList.update ident index d) d (List.enumerate n xs)) y
     = (if y \<in> set xs then Some (n + last_index xs y) else map_of d y)"
proof (induction xs arbitrary: n d)
  case Nil
  show ?case by simp
next
  case (Cons x xs)
  show ?case
    by (simp add: Cons.IH update_conv')
qed

lemma case_stmt_last_index:
  "y \<in> set ids \<Longrightarrow> case_stmt (case_whens ids) nl y = last_index ids y"
  by (simp add: case_stmt_def case_whens_def map_of_whens)

lemma last_index_nth: "y \<in> set xs \<Longrightarrow> last_index xs y < length xs \<and> xs ! last_index xs y = y"
  by (induction xs) auto

lemma last_index_inj: "inj_on (last_index xs) (set xs)"
  by (rule inj_onI) (metis last_index_nth)

lemma last_index_remdups: "sorted_wrt (<) (map (last_index xs) (remdups xs))"
proof (induction xs)
  case Nil
  show ?case by simp
next
  case (Cons x xs)
  have m: "map (last_index (x # xs)) (remdups xs) = map (\<lambda>y. Suc (last_index xs y)) (remdups xs)"
    by (rule map_cong) auto
  have s: "sorted_wrt (<) (map (\<lambda>y. Suc (last_index xs y)) (remdups xs))"
    using Cons.IH by (simp add: sorted_wrt_map)
  show ?case
  proof (cases "x \<in> set xs")
    case True
    then have "remdups (x # xs) = remdups xs" by simp
    then show ?thesis unfolding m using s by (simp only: m)
  next
    case False
    then have r: "remdups (x # xs) = x # remdups xs" by simp
    have z: "last_index (x # xs) x = 0" using False by simp
    have "sorted_wrt (<) (0 # map (\<lambda>y. Suc (last_index xs y)) (remdups xs))"
      using s by auto
    then show ?thesis unfolding r list.map z m .
  qed
qed


lemma parse_record_Inr:
  "parse_embedding_store_record r = Inr d \<Longrightarrow>
     d = \<lparr>content = document r, metadata = (cmetadata r)\<lparr>meta_id := row_id r\<rparr>\<rparr>"
  by (auto simp: parse_embedding_store_record_def split: sum.splits dest: DocMetaData_init_Inr)

lemma map_parse_Inr:
  assumes "map_result parse_embedding_store_record rs = Inr docs"
  shows "docs = map (\<lambda>r. \<lparr>content = document r, metadata = (cmetadata r)\<lparr>meta_id := row_id r\<rparr>\<rparr>) rs"
proof -
  have "list_all2 (\<lambda>r d. parse_embedding_store_record r = Inr d) rs docs"
    using assms by (rule map_result_Inr)
  then have "list_all2 (\<lambda>r d. d = \<lparr>content = document r,
      metadata = (cmetadata r)\<lparr>meta_id := row_id r\<rparr>\<rparr>) rs docs"
    by (rule list_all2_mono) (auto dest: parse_record_Inr)
  then show ?thesis
    by (induction rs docs rule: list_all2_induct) auto
qed

lemma ordered_by_last_index:
  assumes d: "distinct (map row_id rows)"
  shows "map row_id (sort_key (\<lambda>r. case_stmt (case_whens ids) nl (row_id r))
                        (filter (\<lambda>r. row_id r \<in> set ids) rows))
           = filter (\<lambda>i. i \<in> row_id ` set rows) (remdups ids)"
proof -
  let ?K = "\<lambda>r. case_stmt (case_whens ids) nl (row_id r)"
  let ?rs = "sort_key ?K (filter (\<lambda>r. row_id r \<in> set ids) rows)"
  let ?A = "map row_id ?rs"
  let ?T = "filter (\<lambda>i. i \<in> row_id ` set rows) (remdups ids)"
  let ?f = "last_index ids"
  have setA: "set ?A = {i \<in> set ids. i \<in> row_id ` set rows}" by auto
  have setT: "set ?T = {i \<in> set ids. i \<in> row_id ` set rows}" by auto
  have inj: "inj_on ?f (set ?A \<union> set ?T)"
    unfolding setA setT by (rule inj_on_subset[OF last_index_inj]) auto
  have dr: "distinct rows" and ir: "inj_on row_id (set rows)"
    using d by (simp_all add: distinct_map)
  have "inj_on row_id (set ?rs)" by (rule inj_on_subset[OF ir]) auto
  then have dA: "distinct ?A" using dr by (simp add: distinct_map)
  have e: "map ?f ?A = map ?K ?rs"
    unfolding map_map by (rule map_cong) (auto simp: case_stmt_last_index)
  have sA: "sorted (map ?f ?A)" unfolding e by (rule sorted_sort_key)
  have "inj_on ?f (set ?A)" using inj by (rule inj_on_subset) simp
  then have dfA: "distinct (map ?f ?A)" using dA distinct_map[of ?f ?A] by blast
  have "sorted_wrt (\<lambda>a b. ?f a < ?f b) (remdups ids)"
    using last_index_remdups[of ids] by (simp add: sorted_wrt_map)
  then have "sorted_wrt (\<lambda>a b. ?f a < ?f b) ?T" by (rule sorted_wrt_filter)
  then have "sorted_wrt (<) (map ?f ?T)" by (simp add: sorted_wrt_map)
  then have sT: "sorted (map ?f ?T)" and dfT: "distinct (map ?f ?T)"
    by (simp_all add: strict_sorted_iff)
  show ?thesis
    using inj sA dfA sT dfT by (rule map_sorted_distinct_set_unique) (simp only: setA setT)
qed

text \<open>
  Claim C4. For a non-empty list of ids an answer of \<^verbatim>\<open>get_documents_by_ids\<close> holds the
  documents of the stored ids only, one per id, in the order of the ids in the input
  (of their last occurrences, when an id is given more than once), whatever the storage
  order is; ids that are not stored leave no entry. For the empty list the call does not
  return: the ordering \<^verbatim>\<open>CASE\<close> has no \<^verbatim>\<open>WHEN\<close> and the engine refuses the statement.
\<close>

theorem get_documents_by_ids_order:
  "get_documents_by_ids st [] = Inl ProgrammingError
   \<and> (ids \<noteq> [] \<and> bound_rows st = Inr rows \<and> distinct (map row_id rows)
        \<and> get_documents_by_ids st ids = Inr docs \<longrightarrow>
      map (\<lambda>d. meta_id (metadata d)) docs = filter (\<lambda>i. i \<in> row_id ` set rows) (remdups ids)
      \<and> (\<forall>d\<in>set docs. \<exists>r\<in>set rows. content d = document r \<and> meta_id (metadata d) = row_id r))
   \<and> (ids \<noteq> [] \<and> bound_rows st = Inr rows
        \<and> (\<forall>r\<in>set rows. \<exists>d. parse_embedding_store_record r = Inr d) \<longrightarrow>
      (\<exists>docs. get_documents_by_ids st ids = Inr docs))"
proof (intro conjI impI)
  show "get_documents_by_ids st [] = Inl ProgrammingError"
    by (simp add: get_documents_by_ids_def case_whens_def)
next
  assume a: "ids \<noteq> [] \<and> bound_rows st = Inr rows \<and> distinct (map row_id rows)
        \<and> get_documents_by_ids st ids = Inr docs"
  let ?rs = "sort_key (\<lambda>r. case_stmt (case_whens ids) (length ids) (row_id r))
               (filter (\<lambda>r. row_id r \<in> set ids) rows)"
  have "map_result parse_embedding_store_record ?rs = Inr docs"
    using a by (auto simp: get_documents_by_ids_def Let_def split: if_splits)
  then have docs: "docs = map (\<lambda>r. \<lparr>content = document r,
      metadata = (cmetadata r)\<lparr>meta_id := row_id r\<rparr>\<rparr>) ?rs"
    by (rule map_parse_Inr)
  have "map (\<lambda>d. meta_id (metadata d)) docs = map row_id ?rs"
    unfolding docs by (simp add: comp_def)
  then show "map (\<lambda>d. meta_id (metadata d)) docs
      = filter (\<lambda>i. i \<in> row_id ` set rows) (remdups ids)"
    using ordered_by_last_index[of rows ids "length ids"] a by simp
  show "\<forall>d\<in>set docs. \<exists>r\<in>set rows. content d = document r \<and> meta_id (metadata d) = row_id r"
    unfolding docs by auto
next
  assume a: "ids \<noteq> [] \<and> bound_rows st = Inr rows
        \<and> (\<forall>r\<in>set rows. \<exists>d. parse_embedding_store_record r = Inr d)"
  let ?rs = "sort_key (\<lambda>r. case_stmt (case_whens ids) (length ids) (row_id r))
               (filter (\<lambda>r. row_id r \<in> set ids) rows)"
  obtain x xs where ids: "ids = x # xs" using a by (cases ids) auto
  have "map_of (case_whens ids) x \<noteq> None"
    unfolding case_whens_def map_of_whens using ids by simp
  then have w: "case_whens ids \<noteq> []" by auto
  have "\<forall>r\<in>set ?rs. \<exists>d. parse_embedding_store_record r = Inr d" using a by auto
  then obtain docs where "map_result parse_embedding_store_record ?rs = Inr docs"
    using map_result_total by blast
  then show "\<exists>docs. get_documents_by_ids st ids = Inr docs"
    using a w by (simp add: get_documents_by_ids_def)
qed

lemma example_by_ids:
  "get_documents_by_ids store1 [''c'', ''zz'', ''a'', ''c'']
     = Inr [\<lparr>content = ''alpha'', metadata = meta0 ''a'' ''x''\<rparr>,
            \<lparr>content = ''gamma'', metadata = meta0 ''c'' ''x''\<rparr>]"
  by (simp add: get_documents_by_ids_def case_whens_def case_stmt_def bound_rows_def store1_def
      parse_embedding_store_record_def DocMetaData_init_def ensure_not_empty_def meta0_def)

lemma example_by_ids_order:
  "get_documents_by_ids store1 [''c'', ''a'', ''b'']
     = Inr [\<lparr>content = ''gamma'', metadata = meta0 ''c'' ''x''\<rparr>,
            \<lparr>content = ''alpha'', metadata = meta0 ''a'' ''x''\<rparr>,
            \<lparr>content = ''beta'', metadata = meta0 ''b'' ''y''\<rparr>]"
  by (simp add: get_documents_by_ids_def case_whens_def case_stmt_def bound_rows_def store1_def
      parse_embedding_store_record_def DocMetaData_init_def ensure_not_empty_def meta0_def)


text \<open>
  On the example store: the empty list, and a list with an unknown id and a repeated one.
\<close>

theorem get_documents_by_ids_order_witness:
  "get_documents_by_ids store1 [] = Inl ProgrammingError
   \<and> get_documents_by_ids store1 [''c'', ''zz'', ''a'', ''c'']
       = Inr [\<lparr>content = ''alpha'', metadata = meta0 ''a'' ''x''\<rparr>,
              \<lparr>content = ''gamma'', metadata = meta0 ''c'' ''x''\<rparr>]
   \<and> map (\<lambda>d. meta_id (metadata d))
         [\<lparr>content = ''alpha'', metadata = meta0 ''a'' ''x''\<rparr>,
          \<lparr>content = ''gamma'', metadata = meta0 ''c'' ''x''\<rparr>]
       = [''a'', ''c'']
   \<and> get_documents_by_ids store1 [''c'', ''a'', ''b'']
       = Inr [\<lparr>content = ''gamma'', metadata = meta0 ''c'' ''x''\<rparr>,
              \<lparr>content = ''alpha'', metadata = meta0 ''a'' ''x''\<rparr>,
              \<lparr>content = ''beta'', metadata = meta0 ''b'' ''y''\<rparr>]
   \<and> list_all (\<lambda>r. parse_embedding_store_record r
                     = Inr \<lparr>content = document r, metadata = cmetadata r\<rparr>)
        (snd (hd (tables store1)))"
proof -
  let ?rows = "[\<lparr>row_id = ''a'', embedding = 1 :: real, document = ''alpha'', cmetadata = meta0 ''a'' ''x''\<rparr>,
                \<lparr>row_id = ''b'', embedding = 0, document = ''beta'', cmetadata = meta0 ''b'' ''y''\<rparr>,
                \<lparr>row_id = ''c'', embedding = 3, document = ''gamma'', cmetadata = meta0 ''c'' ''x''\<rparr>]"
  have b: "bound_rows store1 = Inr ?rows" by (simp add: bound_rows_def store1_def)
  have d: "distinct (map row_id ?rows)" by simp
  have n: "[''c'', ''zz'', ''a'', ''c''] \<noteq> []" by simp
  have v: "list_all (\<lambda>r. parse_embedding_store_record r
                     = Inr \<lparr>content = document r, metadata = cmetadata r\<rparr>)
        (snd (hd (tables store1)))"
    by (simp add: store1_def meta0_def parse_embedding_store_record_def DocMetaData_init_def
        ensure_not_empty_def)
  show ?thesis
    using example_by_ids example_by_ids_order v
      get_documents_by_ids_order[of store1 "[''c'', ''zz'', ''a'', ''c'']" ?rows
        "[\<lparr>content = ''alpha'', metadata = meta0 ''a'' ''x''\<rparr>,
          \<lparr>content = ''gamma'', metadata = meta0 ''c'' ''x''\<rparr>]"] b d n
    by simp
qed

end
